theory Spec2Isabelle
  imports Complex_Main
begin

section \<open>Data model\<close>

text \<open>
  The post-processing code of \<^verbatim>\<open>nv_ingest/util/nim/yolox.py\<close> works on Python and
  numpy floats. They are modelled as real numbers: every theorem below is a statement
  about the arithmetic the code writes down, not about binary rounding (numpy's
  \<^verbatim>\<open>float32\<close> storage in the fusion engine included).

  A detection is the Python list \<^verbatim>\<open>[x1, y1, x2, y2, confidence]\<close>; the code splits it
  as \<^verbatim>\<open>bbox_and_score[:4], bbox_and_score[4]\<close>. An annotation dictionary has the
  three keys \<^verbatim>\<open>table\<close>, \<^verbatim>\<open>chart\<close>, \<^verbatim>\<open>title\<close>.
\<close>

record bbox =
  x1 :: real
  y1 :: real
  x2 :: real
  y2 :: real

record detection =
  dbox :: bbox
  conf :: real

record annotation_dict =
  table :: "detection list"
  chart :: "detection list"
  title :: "detection list"

datatype py_error =
    SystemExit
  | AssertionError
  | IndexError
  | ZeroDivisionError
  | ArgmaxOfEmpty
  | PostprocessError "nat \<times> nat" "nat list" py_error

text \<open>
  Python's \<^verbatim>\<open>round(x, 4)\<close>: the nearest multiple of \<open>1/10000\<close>, a tie going to the
  even one.
\<close>

definition round_half_even :: "real \<Rightarrow> int" where
  "round_half_even y =
     (let f = \<lfloor>y\<rfloor>; d = y - of_int f
      in if d < 1 / 2 then f
         else if 1 / 2 < d then f + 1
         else if even f then f else f + 1)"

definition round4 :: "real \<Rightarrow> real" where
  "round4 x = of_int (round_half_even (x * 10000)) / 10000"

definition round_detection :: "bbox \<Rightarrow> real \<Rightarrow> detection" where
  "round_detection b score =
     \<lparr>dbox = \<lparr>x1 = round4 (x1 b), y1 = round4 (y1 b), x2 = round4 (x2 b), y2 = round4 (y2 b)\<rparr>,
      conf = round4 score\<rparr>"

section \<open>Table caption expansion\<close>

text \<open>
  \<^verbatim>\<open>expand_table_bboxes\<close>: the body of the loop over \<^verbatim>\<open>annotation_dict.items()\<close> is
  \<open>expand_table_entry\<close>, with the label of the list the entry comes from.
\<close>

definition expand_table_entry :: "string \<Rightarrow> detection \<Rightarrow> detection" where
  "expand_table_entry label bbox_and_score =
     (let b = dbox bbox_and_score;
          score = conf bbox_and_score;
          b' = (if label = ''table''
                then (let height = y2 b - y1 b
                      in b\<lparr>y1 := max 0 (min 1 (y1 b - height * 0.2))\<rparr>)
                else b)
      in round_detection b' score)"

definition expand_table_bboxes :: "annotation_dict \<Rightarrow> annotation_dict" where
  "expand_table_bboxes a =
     (if length (table a) = 0 then a
      else \<lparr>table = map (expand_table_entry ''table'') (table a),
            chart = map (expand_table_entry ''chart'') (chart a),
            title = map (expand_table_entry ''title'') (title a)\<rparr>)"

section \<open>Final threshold filter\<close>

text \<open>
  The last loop of \<^verbatim>\<open>process_inference_results\<close>: tables and charts are kept when
  \<^verbatim>\<open>bb[4] >= final_thresh\<close>, titles are copied.
\<close>

definition final_threshold_filter :: "real \<Rightarrow> annotation_dict \<Rightarrow> annotation_dict" where
  "final_threshold_filter final_thresh a =
     \<lparr>table = [bb \<leftarrow> table a. final_thresh \<le> conf bb],
      chart = [bb \<leftarrow> chart a. final_thresh \<le> conf bb],
      title = title a\<rparr>"

section \<open>Detector output normalizer\<close>

text \<open>
  A two-dimensional tensor is its number of columns and its rows (every row as long as the
  number of columns says); the shape numpy prints is \<open>(length rows, ncols)\<close>. The raw
  prediction of a batch is the number of columns and, per image, the candidate rows.
\<close>

record tensor2 =
  ncols :: nat
  rows :: "real list list"

definition shape_of :: "tensor2 \<Rightarrow> nat \<times> nat" where
  "shape_of t = (length (rows t), ncols t)"

definition first_index :: "'a \<Rightarrow> 'a list \<Rightarrow> nat" where
  "first_index v xs = length (takeWhile (\<lambda>x. x \<noteq> v) xs)"

definition argmax :: "real list \<Rightarrow> nat" where
  "argmax xs = first_index (Max (set xs)) xs"

definition argmin :: "real list \<Rightarrow> nat" where
  "argmin xs = first_index (Min (set xs)) xs"

text \<open>Running a loop whose body may raise: the first error ends it.\<close>

fun for_each :: "('a \<Rightarrow> 'e + 'b) \<Rightarrow> 'a list \<Rightarrow> 'e + 'b list" where
  "for_each f [] = Inr []"
| "for_each f (x # xs) =
     (case f x of
        Inl e \<Rightarrow> Inl e
      | Inr y \<Rightarrow> (case for_each f xs of Inl e \<Rightarrow> Inl e | Inr ys \<Rightarrow> Inr (y # ys)))"

definition box_corner :: "real list \<Rightarrow> real list" where
  "box_corner r =
     [r ! 0 - r ! 2 / 2, r ! 1 - r ! 3 / 2, r ! 0 + r ! 2 / 2, r ! 1 + r ! 3 / 2] @ drop 4 r"

definition row_bbox :: "real list \<Rightarrow> bbox" where
  "row_bbox r = \<lparr>x1 = r ! 0, y1 = r ! 1, x2 = r ! 2, y2 = r ! 3\<rparr>"

text \<open>
  The body of the loop of \<^verbatim>\<open>postprocess_model_prediction\<close> for one image (its rows
  already in corner form). \<^verbatim>\<open>torchvision.ops.nms\<close> and \<^verbatim>\<open>batched_nms\<close> are library
  code: they are the parameters \<open>nms\<close> and \<open>batched_nms\<close>, returning the indices kept.
  \<^verbatim>\<open>torch.max\<close> over a slice without columns raises.
\<close>

definition image_prediction ::
  "(bbox list \<Rightarrow> real list \<Rightarrow> real \<Rightarrow> nat list) \<Rightarrow>
   (bbox list \<Rightarrow> real list \<Rightarrow> real list \<Rightarrow> real \<Rightarrow> nat list) \<Rightarrow>
   nat \<Rightarrow> nat \<Rightarrow> real \<Rightarrow> real \<Rightarrow> bool \<Rightarrow> real list list \<Rightarrow> py_error + tensor2 option" where
  "image_prediction nms batched_nms nc num_classes conf_thre nms_thre class_agnostic image_pred =
     (if length image_pred = 0 then Inr None
      else if min nc (5 + num_classes) \<le> 5 then Inl IndexError
      else
        let class_scores = (\<lambda>r. take num_classes (drop 5 r));
            class_conf = (\<lambda>r. Max (set (class_scores r)));
            class_pred = (\<lambda>r. real (argmax (class_scores r)));
            detections = map (\<lambda>r. take 5 r @ [class_conf r, class_pred r])
                           [r \<leftarrow> image_pred. conf_thre \<le> r ! 4 * class_conf r]
        in if length detections = 0 then Inr None
           else
             let nms_out_index =
                   (if class_agnostic
                    then nms (map row_bbox detections) (map (\<lambda>d. d ! 4 * d ! 5) detections) nms_thre
                    else batched_nms (map row_bbox detections) (map (\<lambda>d. d ! 4 * d ! 5) detections)
                           (map (\<lambda>d. d ! 6) detections) nms_thre)
             in if \<exists>i \<in> set nms_out_index. length detections \<le> i then Inl IndexError
                else Inr (Some \<lparr>ncols = 7, rows = map (\<lambda>i. detections ! i) nms_out_index\<rparr>))"


definition empty_annotation :: annotation_dict where
  "empty_annotation = \<lparr>table = [], chart = [], title = []\<rparr>"

definition int_of_float :: "real \<Rightarrow> int" where
  "int_of_float r = (if 0 \<le> r then \<lfloor>r\<rfloor> else \<lceil>r\<rceil>)"

definition YOLOX_IMAGE_PREPROC_HEIGHT :: real where
  "YOLOX_IMAGE_PREPROC_HEIGHT = 1024"

definition YOLOX_IMAGE_PREPROC_WIDTH :: real where
  "YOLOX_IMAGE_PREPROC_WIDTH = 1024"

definition clip01 :: "real \<Rightarrow> real" where
  "clip01 v = min (max v 0) 1"

text \<open>
  The \<^verbatim>\<open>try\<close> block of \<^verbatim>\<open>postprocess_results\<close> for one image. Whatever is raised inside
  is raised again as a \<^verbatim>\<open>ValueError\<close> whose message holds \<^verbatim>\<open>result.shape\<close>, the original
  image shape and the text of the first exception: \<open>PostprocessError\<close>. The shape is the
  one \<^verbatim>\<open>result\<close> has when the exception happens, so after the score filter it is the
  filtered one.
\<close>

definition postprocess_try ::
  "nat list \<Rightarrow> tensor2 \<Rightarrow> real \<Rightarrow> py_error + (bbox \<times> real \<times> real) list" where
  "postprocess_try original_image_shape result min_score =
     (if ncols result < 6
      then Inl (PostprocessError (shape_of result) original_image_shape IndexError)
      else
        let kept = [r \<leftarrow> rows result. min_score < r ! 4 * r ! 5];
            result' = result\<lparr>rows := kept\<rparr>;
            fail = (\<lambda>e. Inl (PostprocessError (shape_of result') original_image_shape e))
        in if length original_image_shape < 1 then fail IndexError
           else if original_image_shape ! 0 = 0 then fail ZeroDivisionError
           else if length original_image_shape < 2 then fail IndexError
           else if original_image_shape ! 1 = 0 then fail ZeroDivisionError
           else
             let ratio = min (YOLOX_IMAGE_PREPROC_WIDTH / real (original_image_shape ! 0))
                             (YOLOX_IMAGE_PREPROC_HEIGHT / real (original_image_shape ! 1));
                 norm_x = (\<lambda>v. clip01 (v / ratio / real (original_image_shape ! 1)));
                 norm_y = (\<lambda>v. clip01 (v / ratio / real (original_image_shape ! 0)))
             in if ncols result < 7 then fail IndexError
                else Inr (map (\<lambda>r. (\<lparr>x1 = norm_x (r ! 0), y1 = norm_y (r ! 1),
                                         x2 = norm_x (r ! 2), y2 = norm_y (r ! 3)\<rparr>,
                                       r ! 4 * r ! 5, r ! 6)) kept))"

text \<open>
  The second loop of the image, outside the \<^verbatim>\<open>try\<close>:
  \<^verbatim>\<open>class_labels[int(label)]\<close> with Python's negative indices, then the append.
\<close>

definition append_annotation ::
  "bbox \<times> real \<times> real \<Rightarrow> annotation_dict \<Rightarrow> py_error + annotation_dict" where
  "append_annotation e a =
     (case e of (box, score, label) \<Rightarrow>
        let i = int_of_float label;
            k = (if i < 0 then i + 3 else i);
            d = round_detection box score
        in if k = 0 then Inr (a\<lparr>table := table a @ [d]\<rparr>)
           else if k = 1 then Inr (a\<lparr>chart := chart a @ [d]\<rparr>)
           else if k = 2 then Inr (a\<lparr>title := title a @ [d]\<rparr>)
           else Inl IndexError)"

fun append_annotations ::
  "(bbox \<times> real \<times> real) list \<Rightarrow> annotation_dict \<Rightarrow> py_error + annotation_dict" where
  "append_annotations [] a = Inr a"
| "append_annotations (e # es) a =
     (case append_annotation e a of Inl err \<Rightarrow> Inl err | Inr a' \<Rightarrow> append_annotations es a')"

definition postprocess_image ::
  "real \<Rightarrow> nat list \<times> tensor2 option \<Rightarrow> py_error + annotation_dict" where
  "postprocess_image min_score p =
     (case p of (original_image_shape, result) \<Rightarrow>
        (case result of
           None \<Rightarrow> Inr empty_annotation
         | Some t \<Rightarrow>
             (case postprocess_try original_image_shape t min_score of
                Inl e \<Rightarrow> Inl e
              | Inr entries \<Rightarrow> append_annotations entries empty_annotation)))"


section \<open>Geometry kernel\<close>

definition bb_iou :: "bbox \<Rightarrow> bbox \<Rightarrow> real" where
  "bb_iou b new_box =
     (let xA = max (x1 b) (x1 new_box);
          yA = max (y1 b) (y1 new_box);
          xB = min (x2 b) (x2 new_box);
          yB = min (y2 b) (y2 new_box);
          interArea = max (xB - xA) 0 * max (yB - yA) 0;
          boxAArea = (x2 b - x1 b) * (y2 b - y1 b);
          boxBArea = (x2 new_box - x1 new_box) * (y2 new_box - y1 new_box)
      in interArea / (boxAArea + boxBArea - interArea))"

definition bb_iou_array :: "bbox list \<Rightarrow> bbox \<Rightarrow> real list" where
  "bb_iou_array boxes new_box = map (\<lambda>b. bb_iou b new_box) boxes"

definition merge_boxes :: "bbox \<Rightarrow> bbox \<Rightarrow> bbox" where
  "merge_boxes b1 b2 =
     \<lparr>x1 = min (x1 b1) (x1 b2), y1 = min (y1 b1) (y1 b2),
      x2 = max (x2 b1) (x2 b2), y2 = max (y2 b1) (y2 b2)\<rparr>"

definition expand_box :: "real \<Rightarrow> real \<Rightarrow> bbox \<Rightarrow> bbox" where
  "expand_box r_x r_y b =
     (let dw = (x2 b - x1 b) / 2 * (r_x - 1);
          dh = (y2 b - y1 b) / 2 * (r_y - 1)
      in \<lparr>x1 = clip01 (x1 b - dw), y1 = clip01 (y1 b - dh),
          x2 = clip01 (x2 b + dw), y2 = clip01 (y2 b + dh)\<rparr>)"

definition expand_boxes :: "bbox list \<Rightarrow> real \<Rightarrow> real \<Rightarrow> bbox list" where
  "expand_boxes boxes r_x r_y = map (expand_box r_x r_y) boxes"

section \<open>Box fusion engine\<close>

text \<open>
  The record of eight numbers \<^verbatim>\<open>[label, score, weight, model index, x1, y1, x2, y2]\<close>.
  The dictionary \<^verbatim>\<open>new_boxes\<close> is an association list in insertion order, which is the
  order Python iterates it in; its key is the label or \<^verbatim>\<open>"*"\<close>.
\<close>

record fusion_record =
  flabel :: int
  fscore :: real
  fweight :: real
  fmodel :: int
  fbox :: bbox

datatype bucket_key = Star | Label int

type_synonym buckets = "(bucket_key \<times> fusion_record list) list"

definition box_data_checks :: "bbox \<Rightarrow> bbox" where
  "box_data_checks box_part =
     (let a1 = x1 box_part; b1 = y1 box_part; a2 = x2 box_part; b2 = y2 box_part;
          (a1, a2) = (if a2 < a1 then (a2, a1) else (a1, a2));
          (b1, b2) = (if b2 < b1 then (b2, b1) else (b1, b2));
          a1 = (if a1 < 0 then 0 else a1);
          a1 = (if 1 < a1 then 1 else a1);
          a2 = (if a2 < 0 then 0 else a2);
          a2 = (if 1 < a2 then 1 else a2);
          b1 = (if b1 < 0 then 0 else b1);
          b1 = (if 1 < b1 then 1 else b1);
          b2 = (if b2 < 0 then 0 else b2);
          b2 = (if 1 < b2 then 1 else b2)
      in \<lparr>x1 = a1, y1 = b1, x2 = a2, y2 = b2\<rparr>)"

definition add_box :: "bucket_key \<Rightarrow> fusion_record \<Rightarrow> buckets \<Rightarrow> buckets" where
  "add_box label_k b new_boxes =
     (if label_k \<in> fst ` set new_boxes
      then map (\<lambda>(k, bs). if k = label_k then (k, bs @ [b]) else (k, bs)) new_boxes
      else new_boxes @ [(label_k, [b])])"

definition prefilter_entry ::
  "real \<Rightarrow> bool \<Rightarrow> real \<Rightarrow> nat \<Rightarrow> bbox \<times> real \<times> int \<Rightarrow> buckets \<Rightarrow> buckets" where
  "prefilter_entry thr class_agnostic w t e new_boxes =
     (case e of (box_part, score, label) \<Rightarrow>
        if score < thr then new_boxes
        else
          let c = box_data_checks box_part
          in if (x2 c - x1 c) * (y2 c - y1 c) = 0 then new_boxes
             else add_box (if class_agnostic then Star else Label label)
                    \<lparr>flabel = label, fscore = score * w, fweight = w, fmodel = int t, fbox = c\<rparr>
                    new_boxes)"

text \<open>
  The loop over the models \<^verbatim>\<open>t\<close>. \<^verbatim>\<open>exit()\<close> on arrays of different lengths is
  \<open>SystemExit\<close>; \<^verbatim>\<open>scores[t]\<close> and \<^verbatim>\<open>labels[t]\<close> raise when the list is too short.
\<close>

fun prefilter_loop ::
  "bbox list list \<Rightarrow> real list list \<Rightarrow> int list list \<Rightarrow> real list \<Rightarrow> real \<Rightarrow> bool \<Rightarrow>
   nat list \<Rightarrow> buckets \<Rightarrow> py_error + buckets" where
  "prefilter_loop boxes scores labels weights thr class_agnostic [] new_boxes = Inr new_boxes"
| "prefilter_loop boxes scores labels weights thr class_agnostic (t # ts) new_boxes =
     (if length scores \<le> t then Inl IndexError
      else if length (boxes ! t) \<noteq> length (scores ! t) then Inl SystemExit
      else if length labels \<le> t then Inl IndexError
      else if length (boxes ! t) \<noteq> length (labels ! t) then Inl SystemExit
      else prefilter_loop boxes scores labels weights thr class_agnostic ts
             (fold (prefilter_entry thr class_agnostic (weights ! t) t)
                (zip (boxes ! t) (zip (scores ! t) (labels ! t))) new_boxes))"

text \<open>
  \<^verbatim>\<open>a[a[:, 1].argsort()[::-1]]\<close>: ascending by score, then reversed. numpy sorts a short
  array by insertion, which keeps equal scores in order, as \<open>sort_key\<close> does.
\<close>

definition sort_by_score_desc :: "fusion_record list \<Rightarrow> fusion_record list" where
  "sort_by_score_desc bs = rev (sort_key fscore bs)"

definition prefilter_boxes ::
  "bbox list list \<Rightarrow> real list list \<Rightarrow> int list list \<Rightarrow> real list \<Rightarrow> real \<Rightarrow> bool \<Rightarrow>
   py_error + buckets" where
  "prefilter_boxes boxes scores labels weights thr class_agnostic =
     (case prefilter_loop boxes scores labels weights thr class_agnostic [0..<length boxes] [] of
        Inl e \<Rightarrow> Inl e
      | Inr new_boxes \<Rightarrow> Inr (map (\<lambda>(k, bs). (k, sort_by_score_desc bs)) new_boxes))"

definition find_matching_box_fast ::
  "fusion_record list \<Rightarrow> fusion_record \<Rightarrow> real \<Rightarrow> int \<times> real" where
  "find_matching_box_fast boxes_list new_box match_iou =
     (if length boxes_list = 0 then (- 1, match_iou)
      else
        let ious = bb_iou_array (map fbox boxes_list) (fbox new_box);
            best_idx = argmax ious;
            best_iou = ious ! best_idx
        in if best_iou \<le> match_iou then (- 1, match_iou) else (int best_idx, best_iou))"

text \<open>
  \<^verbatim>\<open>list(set(xs))\<close> on small non-negative integers: CPython keeps such a set in a hash
  table indexed by the value, so the list comes out ascending as long as every element
  is below the table size (8, growing with the set).
\<close>

definition list_of_set :: "nat list \<Rightarrow> nat list" where
  "list_of_set xs = sort (remdups xs)"

definition cluster_step :: "fusion_record list \<Rightarrow> real \<Rightarrow> nat \<Rightarrow> nat list list \<Rightarrow> nat list list" where
  "cluster_step boxes iou_thr j clusters =
     (let ids = [i \<leftarrow> [0..<length boxes]. i \<noteq> j];
          (index, best_iou) = find_matching_box_fast (map (\<lambda>i. boxes ! i) ids) (boxes ! j) iou_thr
      in if index \<noteq> - 1
         then
           let index = ids ! nat index;
               cluster_idx = [clust_idx \<leftarrow> [0..<length clusters].
                                j \<in> set (clusters ! clust_idx) \<or> index \<in> set (clusters ! clust_idx)]
           in if length cluster_idx \<noteq> 0
              then clusters[hd cluster_idx := list_of_set (clusters ! hd cluster_idx @ [index, j])]
              else clusters @ [[index, j]]
         else clusters @ [[j]])"

definition clusterize :: "fusion_record list \<Rightarrow> real \<Rightarrow> nat list list" where
  "clusterize boxes iou_thr = fold (cluster_step boxes iou_thr) [0..<length boxes] []"

text \<open>
  \<^verbatim>\<open>merge_labels\<close>. The filter on the confidences is written \<^verbatim>\<open>confs[confs != 2]\<close> in
  the source. \<^verbatim>\<open>np.argmax\<close> of an empty array raises, and so does an index beyond the
  filtered labels.
\<close>

definition merge_labels :: "int list \<Rightarrow> real list \<Rightarrow> py_error + int" where
  "merge_labels labels confs =
     (if length (remdups labels) = 1 then Inr (labels ! 0)
      else
        let confs' = [c \<leftarrow> confs. c \<noteq> 2];
            labels' = [l \<leftarrow> labels. l \<noteq> 2]
        in if confs' = [] then Inl ArgmaxOfEmpty
           else if length labels' \<le> argmax confs' then Inl IndexError
           else Inr (labels' ! argmax confs'))"

definition merged_confidence :: "string \<Rightarrow> real list \<Rightarrow> real" where
  "merged_confidence conf_type conf_list =
     (if conf_type = ''max'' then Max (set conf_list)
      else sum_list conf_list / real (length conf_list))"

definition get_biggest_box :: "fusion_record list \<Rightarrow> string \<Rightarrow> py_error + fusion_record" where
  "get_biggest_box boxes conf_type =
     (if boxes = [] then Inl IndexError
      else
        let box = fold (\<lambda>b acc. \<lparr>x1 = min (x1 acc) (x1 (fbox b)), y1 = min (y1 acc) (y1 (fbox b)),
                                 x2 = max (x2 acc) (x2 (fbox b)), y2 = max (y2 acc) (y2 (fbox b))\<rparr>)
                    boxes (fbox (boxes ! 0));
            conf_list = map fscore boxes;
            w = sum_list (map fweight boxes)
        in case merge_labels (map flabel boxes) (map fscore boxes) of
             Inl e \<Rightarrow> Inl e
           | Inr l \<Rightarrow> Inr \<lparr>flabel = l, fscore = merged_confidence conf_type conf_list,
                           fweight = w, fmodel = - 1, fbox = box\<rparr>)"

text \<open>
  \<^verbatim>\<open>get_weighted_box\<close>. When every score of the cluster is 0 numpy divides by zero and
  stores \<^verbatim>\<open>nan\<close>; in HOL the quotient is 0. Nothing below is claimed about these
  coordinates. An empty cluster already fails in \<open>merge_labels\<close>.
\<close>

definition get_weighted_box :: "fusion_record list \<Rightarrow> string \<Rightarrow> py_error + fusion_record" where
  "get_weighted_box boxes conf_type =
     (let wsum = (\<lambda>f. sum_list (map (\<lambda>b. fscore b * f (fbox b)) boxes));
          conf_sum = sum_list (map fscore boxes);
          conf_list = map fscore boxes;
          w = sum_list (map fweight boxes)
      in case merge_labels (map flabel boxes) (map fscore boxes) of
           Inl e \<Rightarrow> Inl e
         | Inr l \<Rightarrow>
             Inr \<lparr>flabel = l, fscore = merged_confidence conf_type conf_list,
                  fweight = w, fmodel = - 1,
                  fbox = \<lparr>x1 = wsum x1 / conf_sum, y1 = wsum y1 / conf_sum,
                          x2 = wsum x2 / conf_sum, y2 = wsum y2 / conf_sum\<rparr>\<rparr>)"

text \<open>
  The second loop of \<^verbatim>\<open>weighted_boxes_fusion\<close> for one cluster \<open>c\<close>: the merge, then
  the rescaling of the confidence by the model weights.
\<close>

definition merge_cluster ::
  "string \<Rightarrow> string \<Rightarrow> real list \<Rightarrow> fusion_record list \<Rightarrow> nat list \<Rightarrow> py_error + fusion_record" where
  "merge_cluster conf_type merge_type weights boxes c =
     (case (if merge_type = ''weighted'' then get_weighted_box (map (\<lambda>i. boxes ! i) c) conf_type
            else get_biggest_box (map (\<lambda>i. boxes ! i) c) conf_type) of
        Inl e \<Rightarrow> Inl e
      | Inr weighted_box \<Rightarrow>
          Inr (if conf_type = ''max''
               then weighted_box\<lparr>fscore := fscore weighted_box / Max (set weights)\<rparr>
               else weighted_box\<lparr>fscore := fscore weighted_box * real (length c) / sum_list weights\<rparr>))"

definition fuse_bucket ::
  "string \<Rightarrow> string \<Rightarrow> real list \<Rightarrow> real \<Rightarrow> fusion_record list \<Rightarrow> py_error + fusion_record list" where
  "fuse_bucket conf_type merge_type weights iou_thr boxes =
     for_each (merge_cluster conf_type merge_type weights boxes) (clusterize boxes iou_thr)"

definition weighted_boxes_fusion ::
  "bbox list list \<Rightarrow> real list list \<Rightarrow> int list list \<Rightarrow> real \<Rightarrow> real \<Rightarrow> string \<Rightarrow> string \<Rightarrow> bool \<Rightarrow>
   py_error + bbox list \<times> real list \<times> int list" where
  "weighted_boxes_fusion boxes_list scores_list labels_list iou_thr skip_box_thr conf_type merge_type
       class_agnostic =
     (let weights = replicate (length boxes_list) (1::real)
      in if conf_type \<notin> {''avg'', ''max''} then Inl AssertionError
         else if merge_type \<notin> {''weighted'', ''biggest''} then Inl AssertionError
         else
           case prefilter_boxes boxes_list scores_list labels_list weights skip_box_thr class_agnostic of
             Inl e \<Rightarrow> Inl e
           | Inr filtered_boxes \<Rightarrow>
               if length filtered_boxes = 0 then Inr ([], [], [])
               else
                 case for_each (\<lambda>(label, boxes). fuse_bucket conf_type merge_type weights iou_thr boxes)
                        filtered_boxes of
                   Inl e \<Rightarrow> Inl e
                 | Inr merged \<Rightarrow>
                     let overall_boxes = sort_by_score_desc (concat merged)
                     in Inr (map fbox overall_boxes, map fscore overall_boxes,
                             map flabel overall_boxes))"

section \<open>Chart and title fusion\<close>

text \<open>
  \<^verbatim>\<open>match_with_title\<close>: \<open>matches\<close> is the index list of \<^verbatim>\<open>np.where\<close> or the one index
  of \<^verbatim>\<open>np.argmin\<close>; \<open>None\<close> is Python's \<^verbatim>\<open>None\<close>.
\<close>

definition title_dists :: "bbox \<Rightarrow> bbox list \<Rightarrow> real list" where
  "title_dists chart_bbox title_bboxes =
     map (\<lambda>t. min \<bar>y2 t - y1 chart_bbox\<bar> \<bar>y2 chart_bbox - y1 t\<bar> + \<bar>x1 t - x1 chart_bbox\<bar>)
       title_bboxes"

definition title_matches :: "bbox \<Rightarrow> bbox list \<Rightarrow> real \<Rightarrow> nat list option" where
  "title_matches chart_bbox title_bboxes iou_th =
     (let ious = bb_iou_array title_bboxes chart_bbox
      in if iou_th < Max (set ious)
         then Some [i \<leftarrow> [0..<length ious]. iou_th < ious ! i]
         else
           let dists = title_dists chart_bbox title_bboxes
           in if Min (set dists) < 0.1 then Some [argmin dists] else None)"

definition match_with_title :: "bbox \<Rightarrow> bbox list \<Rightarrow> real \<Rightarrow> (bbox \<times> bbox list) option" where
  "match_with_title chart_bbox title_bboxes iou_th =
     (if length title_bboxes = 0 then None
      else
        case title_matches chart_bbox title_bboxes iou_th of
          None \<Rightarrow> None
        | Some matches \<Rightarrow>
            Some (fold (\<lambda>m new_bbox. merge_boxes new_bbox (title_bboxes ! m)) matches chart_bbox,
                  map (\<lambda>i. title_bboxes ! i) [i \<leftarrow> [0..<length title_bboxes]. i \<notin> set matches]))"

text \<open>
  The loop of \<^verbatim>\<open>expand_chart_bboxes\<close> over the fused charts. Its state is the chart
  boxes, the titles not yet matched, and the two index lists.
\<close>

definition match_step ::
  "nat \<Rightarrow> bbox list \<times> bbox list \<times> nat list \<times> nat list \<Rightarrow> bbox list \<times> bbox list \<times> nat list \<times> nat list" where
  "match_step i st =
     (case st of (chart_bboxes, title_bboxes, found_title_idxs, no_found_title_idxs) \<Rightarrow>
        (case match_with_title (chart_bboxes ! i) title_bboxes 0.01 of
           Some (new_bbox, title_bboxes') \<Rightarrow>
             (chart_bboxes[i := new_bbox], title_bboxes', found_title_idxs @ [i], no_found_title_idxs)
         | None \<Rightarrow> (chart_bboxes, title_bboxes, found_title_idxs, no_found_title_idxs @ [i])))"

text \<open>\<^verbatim>\<open>a[idxs] = values\<close> for an index list and as many rows.\<close>

definition assign_rows :: "'a list \<Rightarrow> nat list \<Rightarrow> 'a list \<Rightarrow> 'a list" where
  "assign_rows xs idxs vals = fold (\<lambda>(i, v) ys. ys[i := v]) (zip idxs vals) xs"

definition select_label :: "int \<Rightarrow> int list \<Rightarrow> 'a list \<Rightarrow> 'a list" where
  "select_label l labels xs = map fst [p \<leftarrow> zip xs labels. snd p = l]"

definition expand_chart_bboxes :: "annotation_dict \<Rightarrow> py_error + annotation_dict" where
  "expand_chart_bboxes a =
     (if length (chart a) = 0 then Inr a
      else
        let anns = table a @ chart a @ title a;
            bboxes = map dbox anns;
            confidences = map conf anns;
            label_idxs = replicate (length (table a)) 0 @ replicate (length (chart a)) 1
                           @ replicate (length (title a)) (2::int)
        in case weighted_boxes_fusion (map (\<lambda>b. [b]) bboxes) (map (\<lambda>c. [c]) confidences)
                  (map (\<lambda>l. [l]) label_idxs) 0.01 0.0 ''max'' ''biggest'' False of
             Inl e \<Rightarrow> Inl e
           | Inr (pred_wbf, confidences_wbf, labels_wbf) \<Rightarrow>
               let chart_bboxes = select_label 1 labels_wbf pred_wbf;
                   chart_confidences = select_label 1 labels_wbf confidences_wbf;
                   title_bboxes = select_label 2 labels_wbf pred_wbf;
                   (chart_bboxes, title_bboxes, found_title_idxs, no_found_title_idxs) =
                      fold match_step [0..<length chart_bboxes] (chart_bboxes, title_bboxes, [], []);
                   chart_bboxes = assign_rows chart_bboxes found_title_idxs
                      (expand_boxes (map (\<lambda>i. chart_bboxes ! i) found_title_idxs) 1.05 1.1);
                   chart_bboxes = assign_rows chart_bboxes no_found_title_idxs
                      (expand_boxes (map (\<lambda>i. chart_bboxes ! i) no_found_title_idxs) 1.1 1.25)
               in Inr \<lparr>table = table a,
                       chart = map (\<lambda>(b, c). \<lparr>dbox = b, conf = c\<rparr>) (zip chart_bboxes chart_confidences),
                       title = title a\<rparr>)"

section \<open>The pipeline\<close>

definition YOLOX_FINAL_SCORE :: real where
  "YOLOX_FINAL_SCORE = 0.48"

text \<open>
  \<^verbatim>\<open>process_inference_results\<close> from \<^verbatim>\<open>results\<close> on: both expansions over the batch, then
  the final threshold filter. \<open>refine\<close> is the \<^verbatim>\<open>http\<close> branch, whose \<^verbatim>\<open>results\<close> are
  the output as received; \<open>normalize\<close> computes the \<^verbatim>\<open>results\<close> of the \<^verbatim>\<open>grpc\<close> branch.
\<close>

definition refine :: "annotation_dict list \<Rightarrow> real \<Rightarrow> py_error + annotation_dict list" where
  "refine results final_thresh =
     (let annotation_dicts = map expand_table_bboxes results
      in case for_each expand_chart_bboxes annotation_dicts of
           Inl e \<Rightarrow> Inl e
         | Inr annotation_dicts' \<Rightarrow> Inr (map (final_threshold_filter final_thresh) annotation_dicts'))"



section \<open>Example inputs\<close>

definition mk_box :: "real \<Rightarrow> real \<Rightarrow> real \<Rightarrow> real \<Rightarrow> bbox" where
  "mk_box a b c d = \<lparr>x1 = a, y1 = b, x2 = c, y2 = d\<rparr>"

definition mk_det :: "real \<Rightarrow> real \<Rightarrow> real \<Rightarrow> real \<Rightarrow> real \<Rightarrow> detection" where
  "mk_det a b c d s = \<lparr>dbox = mk_box a b c d, conf = s\<rparr>"

definition threshold_example :: annotation_dict where
  "threshold_example =
     \<lparr>table = [mk_det 0.1 0.1 0.4 0.4 0.48, mk_det 0.5 0.5 0.9 0.9 0.45],
      chart = [mk_det 0.1 0.6 0.4 0.9 0.9],
      title = [mk_det 0.1 0.05 0.4 0.08 0.2]\<rparr>"

definition rounded_example :: annotation_dict where
  "rounded_example =
     \<lparr>table = [mk_det 0.1 0.3 0.5 0.5 0.9], chart = [], title = [mk_det 0.2 0.1 0.6 0.2 0.8]\<rparr>"

definition unrounded_example :: annotation_dict where
  "unrounded_example =
     \<lparr>table = [mk_det 0.1 0.3 0.5 0.5 0.98764],
      chart = [],
      title = [mk_det 0.12346 0.1 0.2 0.2 0.5]\<rparr>"

definition no_table_example :: annotation_dict where
  "no_table_example = \<lparr>table = [], chart = [], title = [mk_det 0.12346 0.1 0.2 0.2 0.5]\<rparr>"

text \<open>A detection whose five numbers already have four decimals.\<close>

definition is_rounded :: "detection \<Rightarrow> bool" where
  "is_rounded d = (round_detection (dbox d) (conf d) = d)"



definition shape_example :: "nat list" where
  "shape_example = [100, 200, 3]"

definition low_confidence_image :: "real list list" where
  "low_confidence_image = [[10, 10, 5, 5, 0.001, 0.5, 0.2, 0.1]]"

text \<open>
  Four overlapping boxes of one model, scores descending: two tables, a chart and a title.
  The chart's best match is the title, and the title's best match is the second table.
\<close>

definition mixed_boxes :: "bbox list list" where
  "mixed_boxes = [[mk_box 0 0 0.35 1, mk_box 0 0 0.4 1, mk_box 0.3 0 0.6 1, mk_box 0.1 0 0.5 1]]"

definition mixed_scores :: "real list list" where
  "mixed_scores = [[0.9, 0.8, 0.7, 0.6]]"

definition mixed_labels :: "int list list" where
  "mixed_labels = [[0, 0, 1, 2]]"

definition mixed_records :: "fusion_record list" where
  "mixed_records =
     [\<lparr>flabel = 0, fscore = 0.9, fweight = 1, fmodel = 0, fbox = mk_box 0 0 0.35 1\<rparr>,
      \<lparr>flabel = 0, fscore = 0.8, fweight = 1, fmodel = 0, fbox = mk_box 0 0 0.4 1\<rparr>,
      \<lparr>flabel = 1, fscore = 0.7, fweight = 1, fmodel = 0, fbox = mk_box 0.3 0 0.6 1\<rparr>,
      \<lparr>flabel = 2, fscore = 0.6, fweight = 1, fmodel = 0, fbox = mk_box 0.1 0 0.5 1\<rparr>]"


text \<open>The box invariant of the outputs: inside the unit square, with a positive area.\<close>

definition valid_box :: "bbox \<Rightarrow> bool" where
  "valid_box b \<longleftrightarrow> 0 \<le> x1 b \<and> x1 b < x2 b \<and> x2 b \<le> 1 \<and> 0 \<le> y1 b \<and> y1 b < y2 b \<and> y2 b \<le> 1"

text \<open>
  What holds of the dictionary of \<^verbatim>\<open>prefilter_boxes\<close>: every record has a valid box and,
  unless the run is class-agnostic, sits under the key of its own label.
\<close>

definition bucket_invariant :: "bool \<Rightarrow> buckets \<Rightarrow> bool" where
  "bucket_invariant ca nb \<longleftrightarrow>
     (\<forall>k bs b. (k, bs) \<in> set nb \<longrightarrow> b \<in> set bs \<longrightarrow>
        valid_box (fbox b) \<and> (\<not> ca \<longrightarrow> k = Label (flabel b)))"

text \<open>
  The three arguments of the fusion call of \<^verbatim>\<open>expand_chart_bboxes\<close>: all detections in
  the order table, chart, title, each as a model of its own.
\<close>

definition fusion_boxes :: "annotation_dict \<Rightarrow> bbox list list" where
  "fusion_boxes a = map (\<lambda>b. [b]) (map dbox (table a @ chart a @ title a))"

definition fusion_scores :: "annotation_dict \<Rightarrow> real list list" where
  "fusion_scores a = map (\<lambda>c. [c]) (map conf (table a @ chart a @ title a))"

definition fusion_labels :: "annotation_dict \<Rightarrow> int list list" where
  "fusion_labels a =
     map (\<lambda>l. [l]) (replicate (length (table a)) 0 @ replicate (length (chart a)) 1
                       @ replicate (length (title a)) 2)"

text \<open>The chart boxes after the two assignments of expanded rows.\<close>

definition expanded_charts :: "bbox list \<Rightarrow> nat list \<Rightarrow> nat list \<Rightarrow> bbox list" where
  "expanded_charts cb found no_found =
     (let cb1 = assign_rows cb found (expand_boxes (map (\<lambda>i. cb ! i) found) 1.05 1.1)
      in assign_rows cb1 no_found (expand_boxes (map (\<lambda>i. cb1 ! i) no_found) 1.1 1.25))"

text \<open>One chart with its title just above it (the title is matched by proximity).\<close>

definition chart_title_example :: annotation_dict where
  "chart_title_example =
     \<lparr>table = [], chart = [mk_det 0.2 0.2 0.6 0.4 0.9], title = [mk_det 0.2 0.05 0.6 0.18 0.8]\<rparr>"





section \<open>Properties\<close>

subsection \<open>Final threshold filter\<close>

lemma length_filter_conf_antitone:
  "t1 \<le> t2 \<Longrightarrow> length [bb \<leftarrow> xs. t2 \<le> conf bb] \<le> length [bb \<leftarrow> xs. t1 \<le> (conf bb :: real)]"
  by (induction xs) auto

text \<open>
  C4. For a fixed input of the final threshold filter, a larger \<open>final_thresh\<close> never gives
  more table detections nor more chart detections, and a table or chart detection whose
  confidence equals \<open>final_thresh\<close> is kept. Titles are not filtered.
\<close>

theorem final_threshold_antitone:
  "t1 \<le> t2 \<Longrightarrow>
     length (table (final_threshold_filter t2 a)) \<le> length (table (final_threshold_filter t1 a)) \<and>
     length (chart (final_threshold_filter t2 a)) \<le> length (chart (final_threshold_filter t1 a)) \<and>
     title (final_threshold_filter t2 a) = title a \<and>
     (\<forall>bb \<in> set (table a). conf bb = t2 \<longrightarrow> bb \<in> set (table (final_threshold_filter t2 a))) \<and>
     (\<forall>bb \<in> set (chart a). conf bb = t2 \<longrightarrow> bb \<in> set (chart (final_threshold_filter t2 a)))"
  using length_filter_conf_antitone [of t1 t2 "table a"] length_filter_conf_antitone [of t1 t2 "chart a"]
  by (simp add: final_threshold_filter_def)

theorem final_threshold_antitone_witness:
  "(0.4::real) \<le> 0.48 \<and>
   mk_det 0.1 0.1 0.4 0.4 0.48 \<in> set (table threshold_example) \<and>
   conf (mk_det 0.1 0.1 0.4 0.4 0.48) = 0.48 \<and>
   mk_det 0.1 0.1 0.4 0.4 0.48 \<in> set (table (final_threshold_filter 0.48 threshold_example)) \<and>
   length (table (final_threshold_filter 0.48 threshold_example)) = 1 \<and>
   length (table (final_threshold_filter 0.4 threshold_example)) = 2 \<and>
   length (chart (final_threshold_filter 0.48 threshold_example))
     \<le> length (chart (final_threshold_filter 0.4 threshold_example))"
  using final_threshold_antitone [of "0.4" "0.48" threshold_example]
  by (simp add: threshold_example_def mk_det_def mk_box_def final_threshold_filter_def)

subsection \<open>Table caption expansion\<close>

lemma map_is_rounded:
  "\<forall>d \<in> set ds. is_rounded d \<Longrightarrow> map (\<lambda>d. round_detection (dbox d) (conf d)) ds = ds"
  by (induction ds) (simp_all add: is_rounded_def)

text \<open>
  C5, as the code has it. With at least one table, every table gets
  \<open>y1 := max 0 (min 1 (y1 - 0.2 * (y2 - y1)))\<close>, and then the five numbers of every
  detection of every label are rounded to four decimals; so the detections of the other
  labels come back unchanged when they already have four decimals. Without a table the
  dictionary is returned as it is.
\<close>

theorem expand_table_bboxes_rounds:
  "(table a = [] \<longrightarrow> expand_table_bboxes a = a) \<and>
   (table a \<noteq> [] \<longrightarrow>
      table (expand_table_bboxes a) =
        map (\<lambda>d. round_detection
                    ((dbox d)\<lparr>y1 := max 0 (min 1 (y1 (dbox d) - 0.2 * (y2 (dbox d) - y1 (dbox d))))\<rparr>)
                    (conf d)) (table a) \<and>
      chart (expand_table_bboxes a) = map (\<lambda>d. round_detection (dbox d) (conf d)) (chart a) \<and>
      title (expand_table_bboxes a) = map (\<lambda>d. round_detection (dbox d) (conf d)) (title a) \<and>
      ((\<forall>d \<in> set (chart a). is_rounded d) \<longrightarrow> chart (expand_table_bboxes a) = chart a) \<and>
      ((\<forall>d \<in> set (title a). is_rounded d) \<longrightarrow> title (expand_table_bboxes a) = title a))"
proof -
  have entry_table: "expand_table_entry ''table'' =
      (\<lambda>d. round_detection
             ((dbox d)\<lparr>y1 := max 0 (min 1 (y1 (dbox d) - 0.2 * (y2 (dbox d) - y1 (dbox d))))\<rparr>)
             (conf d))"
    by (rule ext) (simp add: expand_table_entry_def Let_def mult.commute)
  have entry_chart: "expand_table_entry ''chart'' = (\<lambda>d. round_detection (dbox d) (conf d))"
    by (rule ext) (simp add: expand_table_entry_def Let_def)
  have entry_title: "expand_table_entry ''title'' = (\<lambda>d. round_detection (dbox d) (conf d))"
    by (rule ext) (simp add: expand_table_entry_def Let_def)
  show ?thesis
    by (simp add: expand_table_bboxes_def entry_table entry_chart entry_title map_is_rounded)
qed

theorem expand_table_bboxes_rounds_witness:
  "table rounded_example \<noteq> [] \<and>
   y1 (dbox (hd (table (expand_table_bboxes rounded_example)))) = 0.26 \<and>
   x1 (dbox (hd (table (expand_table_bboxes rounded_example)))) = 0.1 \<and>
   conf (hd (table (expand_table_bboxes rounded_example))) = 0.9 \<and>
   title rounded_example = [mk_det 0.2 0.1 0.6 0.2 0.8] \<and>
   is_rounded (mk_det 0.2 0.1 0.6 0.2 0.8) \<and>
   title (expand_table_bboxes rounded_example) = title rounded_example \<and>
   table no_table_example = [] \<and>
   expand_table_bboxes no_table_example = no_table_example"
  using expand_table_bboxes_rounds [of rounded_example] expand_table_bboxes_rounds [of no_table_example]
  by (simp add: rounded_example_def no_table_example_def mk_det_def mk_box_def round_detection_def
      is_rounded_def round4_def round_half_even_def Let_def)

theorem expand_table_bboxes_counterexample:
  "conf (hd (table unrounded_example)) = 0.98764 \<and>
   conf (hd (table (expand_table_bboxes unrounded_example))) = 0.9876 \<and>
   x1 (dbox (hd (title unrounded_example))) = 0.12346 \<and>
   x1 (dbox (hd (title (expand_table_bboxes unrounded_example)))) = 0.1235"
  by (simp add: unrounded_example_def expand_table_bboxes_def expand_table_entry_def mk_det_def
      mk_box_def round_detection_def round4_def round_half_even_def Let_def)

subsection \<open>Loops that may raise\<close>




subsection \<open>Malformed shapes in the normalizer\<close>





subsection \<open>Empty inputs and empty survivors\<close>

lemma image_prediction_all_below:
  assumes "5 < nc" and "0 < num_classes"
    and "\<forall>r \<in> set image_pred. r ! 4 * Max (set (take num_classes (drop 5 r))) < conf_thre"
  shows "image_prediction nms batched_nms nc num_classes conf_thre nms_thre ca image_pred = Inr None"
proof -
  have "[r \<leftarrow> image_pred. conf_thre \<le> r ! 4 * Max (set (take num_classes (drop 5 r)))] = []"
    using assms(3) by (auto simp: filter_empty_conv)
  moreover from assms(1,2) have "\<not> min nc (5 + num_classes) \<le> 5" by simp
  ultimately show ?thesis
    by (simp add: image_prediction_def Let_def)
qed

lemma image_prediction_nms_empty:
  assumes "5 < nc" and "0 < num_classes"
    and "\<forall>bs ss th. nms bs ss th = []" and "\<forall>bs ss ls th. batched_nms bs ss ls th = []"
  shows "image_prediction nms batched_nms nc num_classes conf_thre nms_thre ca image_pred = Inr None \<or>
         image_prediction nms batched_nms nc num_classes conf_thre nms_thre ca image_pred
           = Inr (Some \<lparr>ncols = 7, rows = []\<rparr>)"
proof -
  from assms(1,2) have "\<not> min nc (5 + num_classes) \<le> 5" by simp
  with assms(3,4) show ?thesis
    by (simp add: image_prediction_def Let_def)
qed

lemma postprocess_image_no_survivor:
  assumes "2 \<le> length shape" and "shape ! 0 \<noteq> 0" and "shape ! 1 \<noteq> 0" and "ncols t = 7"
    and "\<forall>r \<in> set (rows t). r ! 4 * r ! 5 \<le> min_score"
  shows "postprocess_image min_score (shape, Some t) = Inr empty_annotation"
proof -
  have "[r \<leftarrow> rows t. min_score < r ! 4 * r ! 5] = []"
    using assms(5) by (auto simp: filter_empty_conv)
  moreover from assms(1) have "shape \<noteq> []" "\<not> length shape < 2" by auto
  ultimately show ?thesis
    using assms(2-4) by (simp add: postprocess_image_def postprocess_try_def Let_def)
qed

lemma weighted_boxes_fusion_empty:
  "conf_type \<in> {''avg'', ''max''} \<Longrightarrow> merge_type \<in> {''weighted'', ''biggest''} \<Longrightarrow>
   weighted_boxes_fusion [] [] [] iou_thr thr conf_type merge_type ca = Inr ([], [], [])"
  by (simp add: weighted_boxes_fusion_def prefilter_boxes_def)

lemma refine_empty: "refine [empty_annotation] final_thresh = Inr [empty_annotation]"
  by (simp add: refine_def expand_table_bboxes_def expand_chart_bboxes_def empty_annotation_def
      final_threshold_filter_def)

text \<open>
  C9. The fusion engine on empty sequences returns empty sequences. An image all of whose
  candidates fall below the confidence threshold gives \<^verbatim>\<open>None\<close> and then the annotation
  with three empty lists; an image of which the suppression keeps nothing, or of which no
  row is above \<open>min_score\<close>, gives the same annotation (its original shape being a proper
  one); and the heuristics and the final filter return that annotation as it is.
\<close>

theorem empty_is_not_an_error:
  "(conf_type \<in> {''avg'', ''max''} \<longrightarrow> merge_type \<in> {''weighted'', ''biggest''} \<longrightarrow>
      weighted_boxes_fusion [] [] [] iou_thr thr conf_type merge_type ca = Inr ([], [], [])) \<and>
   (5 < nc \<longrightarrow> 0 < num_classes \<longrightarrow>
      (\<forall>r \<in> set image_pred. r ! 4 * Max (set (take num_classes (drop 5 r))) < conf_thre) \<longrightarrow>
      image_prediction nms batched_nms nc num_classes conf_thre nms_thre ca' image_pred = Inr None) \<and>
   postprocess_image min_score (shape, None) = Inr empty_annotation \<and>
   (5 < nc \<longrightarrow> 0 < num_classes \<longrightarrow>
      (\<forall>bs ss th. nms bs ss th = []) \<longrightarrow> (\<forall>bs ss ls th. batched_nms bs ss ls th = []) \<longrightarrow>
      image_prediction nms batched_nms nc num_classes conf_thre nms_thre ca' image_pred = Inr None \<or>
      image_prediction nms batched_nms nc num_classes conf_thre nms_thre ca' image_pred
        = Inr (Some \<lparr>ncols = 7, rows = []\<rparr>)) \<and>
   (2 \<le> length shape \<longrightarrow> shape ! 0 \<noteq> 0 \<longrightarrow> shape ! 1 \<noteq> 0 \<longrightarrow> ncols t = 7 \<longrightarrow>
      (\<forall>r \<in> set (rows t). r ! 4 * r ! 5 \<le> min_score) \<longrightarrow>
      postprocess_image min_score (shape, Some t) = Inr empty_annotation) \<and>
   table empty_annotation = [] \<and> chart empty_annotation = [] \<and> title empty_annotation = [] \<and>
   refine [empty_annotation] final_thresh = Inr [empty_annotation]"
  using image_prediction_all_below [of nc num_classes image_pred conf_thre nms batched_nms nms_thre ca']
    image_prediction_nms_empty [of nc num_classes nms batched_nms conf_thre nms_thre ca' image_pred]
    postprocess_image_no_survivor [of shape t min_score]
    weighted_boxes_fusion_empty [of conf_type merge_type iou_thr thr ca]
    refine_empty [of final_thresh]
  by (simp add: postprocess_image_def empty_annotation_def)

theorem empty_is_not_an_error_witness:
  "''max'' \<in> {''avg'', ''max''} \<and> ''biggest'' \<in> {''weighted'', ''biggest''} \<and>
   weighted_boxes_fusion [] [] [] 0.01 0 ''max'' ''biggest'' False = Inr ([], [], []) \<and>
   (5::nat) < 8 \<and> (0::nat) < 3 \<and>
   map box_corner low_confidence_image = [[7.5, 7.5, 12.5, 12.5, 0.001, 0.5, 0.2, 0.1]] \<and>
   [7.5, 7.5, 12.5, 12.5, 0.001, 0.5, 0.2, 0.1] ! 4
     * Max (set (take 3 (drop 5 [7.5, 7.5, 12.5, 12.5, 0.001, 0.5, 0.2, 0.1]))) < (0.01::real) \<and>
   image_prediction (\<lambda>bs ss th. []) (\<lambda>bs ss ls th. []) 8 3 0.01 0.5 True
     (map box_corner low_confidence_image) = Inr None \<and>
   postprocess_image 0.1 (shape_example, None) = Inr empty_annotation \<and>
   2 \<le> length shape_example \<and> shape_example ! 0 \<noteq> 0 \<and> shape_example ! 1 \<noteq> 0 \<and>
   postprocess_image 0.1 (shape_example, Some \<lparr>ncols = 7, rows = [[10, 10, 20, 20, 0.2, 0.3, 1]]\<rparr>)
     = Inr empty_annotation"
  using empty_is_not_an_error [of "''max''" "''biggest''" "0.01" 0 False 8 3
      "map box_corner low_confidence_image" "0.01" "\<lambda>bs ss th. []" "\<lambda>bs ss ls th. []" "0.5" True "0.1"
      shape_example "\<lparr>ncols = 7, rows = [[10, 10, 20, 20, 0.2, 0.3, 1]]\<rparr>" "0.48"]
  by (simp add: low_confidence_image_def box_corner_def shape_example_def)

subsection \<open>Merged confidence\<close>






lemma set_sort_by_score_desc: "set (sort_by_score_desc bs) = set bs"
  by (simp add: sort_by_score_desc_def)






subsection \<open>Merged label\<close>

text \<open>
  C2 says that the merged label of a cluster with different labels is the label of its
  most confident member that is not a title. \<^verbatim>\<open>merge_labels\<close> filters the labels by
  \<^verbatim>\<open>labels != 2\<close> but the confidences by \<^verbatim>\<open>confs != 2\<close>, so the index of the best
  confidence is taken in the unfiltered array. In the class-agnostic run below the cluster
  \<open>[3, 2]\<close> holds the title (0.6) before the chart (0.7): the index 1 is beyond the one
  label left, and the fusion ends in an \<^verbatim>\<open>IndexError\<close> under both merge policies instead of
  the label of the chart. On the labels \<open>[2, 0, 1]\<close> with confidences
  \<open>[0.5, 0.9, 0.6]\<close> the function returns the chart, not the table of confidence 0.9.
\<close>

theorem merge_labels_mixed_cluster:
  "prefilter_boxes mixed_boxes mixed_scores mixed_labels [1] 0 True = Inr [(Star, mixed_records)] \<and>
   clusterize mixed_records 0.3 = [[0, 1, 3], [3, 2]] \<and>
   merge_labels (map flabel (map (\<lambda>i. mixed_records ! i) [3, 2]))
                (map fscore (map (\<lambda>i. mixed_records ! i) [3, 2])) = Inl IndexError \<and>
   weighted_boxes_fusion mixed_boxes mixed_scores mixed_labels 0.3 0 ''avg'' ''biggest'' True
     = Inl IndexError \<and>
   weighted_boxes_fusion mixed_boxes mixed_scores mixed_labels 0.3 0 ''avg'' ''weighted'' True
     = Inl IndexError \<and>
   merge_labels [2, 0, 1] [0.5, 0.9, 0.6] = Inr 1"
  by code_simp

subsection \<open>Boxes kept by the prefilter\<close>

lemma box_data_checks_coords:
  "x1 (box_data_checks b) = min 1 (max 0 (min (x1 b) (x2 b)))"
  "x2 (box_data_checks b) = min 1 (max 0 (max (x1 b) (x2 b)))"
  "y1 (box_data_checks b) = min 1 (max 0 (min (y1 b) (y2 b)))"
  "y2 (box_data_checks b) = min 1 (max 0 (max (y1 b) (y2 b)))"
  by (simp_all add: box_data_checks_def Let_def min_def max_def)

lemma box_data_checks_valid:
  assumes "(x2 (box_data_checks b) - x1 (box_data_checks b))
             * (y2 (box_data_checks b) - y1 (box_data_checks b)) \<noteq> 0"
  shows "valid_box (box_data_checks b)"
proof -
  have x: "x1 (box_data_checks b) \<le> x2 (box_data_checks b)"
    and y: "y1 (box_data_checks b) \<le> y2 (box_data_checks b)"
    by (simp_all add: box_data_checks_coords min_def max_def)
  from assms have "x1 (box_data_checks b) \<noteq> x2 (box_data_checks b)"
    and "y1 (box_data_checks b) \<noteq> y2 (box_data_checks b)"
    by auto
  with x y have "x1 (box_data_checks b) < x2 (box_data_checks b)"
    and "y1 (box_data_checks b) < y2 (box_data_checks b)"
    by simp_all
  moreover have "0 \<le> x1 (box_data_checks b)" "x2 (box_data_checks b) \<le> 1"
    "0 \<le> y1 (box_data_checks b)" "y2 (box_data_checks b) \<le> 1"
    by (simp_all add: box_data_checks_coords min_def max_def)
  ultimately show ?thesis by (simp add: valid_box_def)
qed

lemma add_box_invariant:
  assumes "bucket_invariant ca nb" and "valid_box (fbox r)" and "\<not> ca \<longrightarrow> label_k = Label (flabel r)"
  shows "bucket_invariant ca (add_box label_k r nb)"
proof (cases "label_k \<in> fst ` set nb")
  case True
  then have eq: "add_box label_k r nb
      = map (\<lambda>(k, bs). if k = label_k then (k, bs @ [r]) else (k, bs)) nb"
    by (simp add: add_box_def)
  show ?thesis
    unfolding bucket_invariant_def
  proof (intro allI impI)
    fix k bs b
    assume mem: "(k, bs) \<in> set (add_box label_k r nb)" and b: "b \<in> set bs"
    from mem eq obtain bs0 where bs0: "(k, bs0) \<in> set nb"
      and bs: "bs = (if k = label_k then bs0 @ [r] else bs0)"
      by (auto split: if_splits)
    show "valid_box (fbox b) \<and> (\<not> ca \<longrightarrow> k = Label (flabel b))"
    proof (cases "b \<in> set bs0")
      case True
      with bs0 assms(1) show ?thesis by (simp add: bucket_invariant_def)
    next
      case False
      with b bs have "b = r" and "k = label_k" by (auto split: if_splits)
      with assms(2,3) show ?thesis by simp
    qed
  qed
next
  case False
  then have "add_box label_k r nb = nb @ [(label_k, [r])]"
    by (simp add: add_box_def)
  with assms show ?thesis by (auto simp: bucket_invariant_def)
qed

lemma prefilter_entry_invariant:
  assumes "bucket_invariant ca nb"
  shows "bucket_invariant ca (prefilter_entry thr ca w t e nb)"
proof (cases e)
  case (fields box_part score label)
  show ?thesis
  proof (cases "score < thr \<or> (x2 (box_data_checks box_part) - x1 (box_data_checks box_part))
             * (y2 (box_data_checks box_part) - y1 (box_data_checks box_part)) = 0")
    case True
    with fields assms show ?thesis by (auto simp: prefilter_entry_def Let_def)
  next
    case False
    then have v: "valid_box (box_data_checks box_part)"
      using box_data_checks_valid [of box_part] by blast
    let ?r = "\<lparr>flabel = label, fscore = score * w, fweight = w, fmodel = int t,
               fbox = box_data_checks box_part\<rparr>"
    let ?k = "if ca then Star else Label label"
    have "bucket_invariant ca (add_box ?k ?r nb)"
      by (rule add_box_invariant [OF assms]) (use v in simp_all)
    moreover from False fields have "prefilter_entry thr ca w t e nb = add_box ?k ?r nb"
      by (simp add: prefilter_entry_def Let_def)
    ultimately show ?thesis by simp
  qed
qed

lemma prefilter_entries_invariant:
  "bucket_invariant ca nb \<Longrightarrow> bucket_invariant ca (fold (prefilter_entry thr ca w t) es nb)"
  by (induction es arbitrary: nb) (simp_all add: prefilter_entry_invariant)

lemma prefilter_loop_invariant:
  assumes "prefilter_loop boxes scores labels weights thr ca ts nb = Inr nb'"
    and "bucket_invariant ca nb"
  shows "bucket_invariant ca nb'"
  using assms
proof (induction ts arbitrary: nb)
  case Nil
  then show ?case by simp
next
  case (Cons t ts)
  let ?nb = "fold (prefilter_entry thr ca (weights ! t) t)
                (zip (boxes ! t) (zip (scores ! t) (labels ! t))) nb"
  from Cons.prems(1) have "prefilter_loop boxes scores labels weights thr ca ts ?nb = Inr nb'"
    by (simp split: if_splits)
  moreover have "bucket_invariant ca ?nb"
    by (rule prefilter_entries_invariant [OF Cons.prems(2)])
  ultimately show ?case by (rule Cons.IH)
qed

lemma prefilter_boxes_invariant:
  assumes "prefilter_boxes boxes scores labels weights thr ca = Inr filtered"
  shows "bucket_invariant ca filtered"
proof -
  from assms(1) obtain nb where
    loop: "prefilter_loop boxes scores labels weights thr ca [0..<length boxes] [] = Inr nb"
    and filtered: "filtered = map (\<lambda>(k, bs). (k, sort_by_score_desc bs)) nb"
    by (auto simp: prefilter_boxes_def split: sum.splits)
  have inv: "bucket_invariant ca nb"
    by (rule prefilter_loop_invariant [OF loop]) (simp add: bucket_invariant_def)
  show ?thesis
    unfolding bucket_invariant_def
  proof (intro allI impI)
    fix k bs b
    assume "(k, bs) \<in> set filtered" and b: "b \<in> set bs"
    with filtered obtain bs' where "(k, bs') \<in> set nb" and "bs = sort_by_score_desc bs'"
      by auto
    with b inv show "valid_box (fbox b) \<and> (\<not> ca \<longrightarrow> k = Label (flabel b))"
      by (simp add: bucket_invariant_def set_sort_by_score_desc)
  qed
qed

lemma prefilter_loop_total:
  assumes "\<forall>t \<in> set ts. t < length scores \<and> t < length labels \<and>
             length (boxes ! t) = length (scores ! t) \<and> length (boxes ! t) = length (labels ! t)"
  shows "\<exists>nb'. prefilter_loop boxes scores labels weights thr ca ts nb = Inr nb'"
  using assms
proof (induction ts arbitrary: nb)
  case Nil
  show ?case by simp
next
  case (Cons t ts)
  have "t \<in> set (t # ts)" by simp
  with Cons.prems have t: "t < length scores \<and> t < length labels \<and>
    length (boxes ! t) = length (scores ! t) \<and> length (boxes ! t) = length (labels ! t)"
    by blast
  have rest: "\<forall>t \<in> set ts. t < length scores \<and> t < length labels \<and>
             length (boxes ! t) = length (scores ! t) \<and> length (boxes ! t) = length (labels ! t)"
  proof
    fix u
    assume "u \<in> set ts"
    then have "u \<in> set (t # ts)" by simp
    with Cons.prems show "u < length scores \<and> u < length labels \<and>
             length (boxes ! u) = length (scores ! u) \<and> length (boxes ! u) = length (labels ! u)"
      by blast
  qed
  from t have "prefilter_loop boxes scores labels weights thr ca (t # ts) nb
      = prefilter_loop boxes scores labels weights thr ca ts
          (fold (prefilter_entry thr ca (weights ! t) t)
             (zip (boxes ! t) (zip (scores ! t) (labels ! t))) nb)"
    by simp
  with Cons.IH [OF rest] show ?case by simp
qed

lemma prefilter_boxes_total:
  assumes "length scores = length boxes" and "length labels = length boxes"
    and "\<forall>t < length boxes. length (boxes ! t) = length (scores ! t)
            \<and> length (boxes ! t) = length (labels ! t)"
  shows "\<exists>filtered. prefilter_boxes boxes scores labels weights thr ca = Inr filtered"
proof -
  have "\<exists>nb'. prefilter_loop boxes scores labels weights thr ca [0..<length boxes] [] = Inr nb'"
    by (rule prefilter_loop_total) (use assms in auto)
  then show ?thesis by (auto simp: prefilter_boxes_def)
qed

subsection \<open>Clusters\<close>

lemma first_index_less: "v \<in> set xs \<Longrightarrow> first_index v xs < length xs"
  by (induction xs) (auto simp: first_index_def)


lemma argmax_less: "xs \<noteq> [] \<Longrightarrow> argmax xs < length xs"
  unfolding argmax_def by (rule first_index_less) simp

lemma argmin_less: "xs \<noteq> [] \<Longrightarrow> argmin xs < length xs"
  unfolding argmin_def by (rule first_index_less) simp

lemma find_matching_box_fast_index:
  assumes "find_matching_box_fast boxes_list new_box match_iou = (index, best_iou)"
    and "index \<noteq> - 1"
  shows "0 \<le> index \<and> nat index < length boxes_list"
proof -
  from assms have ne: "boxes_list \<noteq> []"
    by (auto simp: find_matching_box_fast_def)
  let ?ious = "bb_iou_array (map fbox boxes_list) (fbox new_box)"
  from ne have "?ious \<noteq> []" by (simp add: bb_iou_array_def)
  then have "argmax ?ious < length ?ious" by (rule argmax_less)
  then have less: "argmax ?ious < length boxes_list" by (simp add: bb_iou_array_def)
  from assms ne have "index = int (argmax ?ious)"
    by (auto simp: find_matching_box_fast_def Let_def split: if_splits)
  with less show ?thesis by simp
qed

lemma set_list_of_set: "set (list_of_set xs) = set xs"
  by (simp add: list_of_set_def)

lemma cluster_step_cases:
  assumes "j < length boxes"
  shows "cluster_step boxes iou_thr j clusters = clusters @ [[j]] \<or>
         (\<exists>index < length boxes.
            cluster_step boxes iou_thr j clusters = clusters @ [[index, j]] \<or>
            (\<exists>h < length clusters.
               cluster_step boxes iou_thr j clusters
                 = clusters[h := list_of_set (clusters ! h @ [index, j])]))"
proof -
  define ids where "ids = [i \<leftarrow> [0..<length boxes]. i \<noteq> j]"
  define fm where "fm = find_matching_box_fast (map (\<lambda>i. boxes ! i) ids) (boxes ! j) iou_thr"
  define index where "index = ids ! nat (fst fm)"
  define cluster_idx where "cluster_idx = [clust_idx \<leftarrow> [0..<length clusters].
                           j \<in> set (clusters ! clust_idx) \<or> index \<in> set (clusters ! clust_idx)]"
  have step: "cluster_step boxes iou_thr j clusters =
      (if fst fm \<noteq> - 1
       then if length cluster_idx \<noteq> 0
            then clusters[hd cluster_idx := list_of_set (clusters ! hd cluster_idx @ [index, j])]
            else clusters @ [[index, j]]
       else clusters @ [[j]])"
    unfolding cluster_step_def ids_def [symmetric]
    unfolding fm_def [symmetric] Let_def case_prod_beta index_def [symmetric]
    unfolding cluster_idx_def [symmetric]
    by (rule refl)
  show ?thesis
  proof (cases "fst fm = - 1")
    case True
    with step show ?thesis by simp
  next
    case False
    have "find_matching_box_fast (map (\<lambda>i. boxes ! i) ids) (boxes ! j) iou_thr = (fst fm, snd fm)"
      by (simp add: fm_def)
    from find_matching_box_fast_index [OF this False] have "nat (fst fm) < length ids" by simp
    then have "index \<in> set ids" unfolding index_def by (rule nth_mem)
    then have idx: "index < length boxes" by (simp add: ids_def)
    show ?thesis
    proof (cases "cluster_idx = []")
      case True
      with step False have "cluster_step boxes iou_thr j clusters = clusters @ [[index, j]]"
        by simp
      with idx show ?thesis by blast
    next
      case ne: False
      then have "hd cluster_idx \<in> set cluster_idx" by (rule hd_in_set)
      then have h: "hd cluster_idx < length clusters" by (simp add: cluster_idx_def)
      from step False ne have "cluster_step boxes iou_thr j clusters
          = clusters[hd cluster_idx := list_of_set (clusters ! hd cluster_idx @ [index, j])]"
        by simp
      with idx h show ?thesis by blast
    qed
  qed
qed

lemma cluster_step_invariant:
  assumes "j < length boxes"
    and "\<forall>c \<in> set clusters. c \<noteq> [] \<and> (\<forall>i \<in> set c. i < length boxes)"
  shows "\<forall>c \<in> set (cluster_step boxes iou_thr j clusters). c \<noteq> [] \<and> (\<forall>i \<in> set c. i < length boxes)"
proof -
  have appended: "\<forall>c \<in> set (clusters @ [c']). c \<noteq> [] \<and> (\<forall>i \<in> set c. i < length boxes)"
    if "c' \<noteq> []" and "\<forall>i \<in> set c'. i < length boxes" for c'
    using that assms(2) by simp
  have joined: "\<forall>c \<in> set (clusters[h := list_of_set (clusters ! h @ [index, j])]).
                  c \<noteq> [] \<and> (\<forall>i \<in> set c. i < length boxes)"
    if "index < length boxes" and "h < length clusters" for index h
  proof
    let ?new = "list_of_set (clusters ! h @ [index, j])"
    have old: "\<forall>i \<in> set (clusters ! h). i < length boxes"
      using assms(2) nth_mem [OF that(2)] by blast
    have set_new: "set ?new = set (clusters ! h) \<union> {index, j}" by (simp add: set_list_of_set)
    then have "set ?new \<noteq> {}" by simp
    then have ne: "?new \<noteq> []" by (simp only: set_empty not_False_eq_True)
    have bound: "\<forall>i \<in> set ?new. i < length boxes"
      unfolding set_new using old that(1) assms(1) by simp
    fix c
    assume "c \<in> set (clusters[h := ?new])"
    then have "c \<in> insert ?new (set clusters)"
      using set_update_subset_insert [of clusters h ?new] by (rule set_mp [rotated])
    then have "c = ?new \<or> c \<in> set clusters" by simp
    then show "c \<noteq> [] \<and> (\<forall>i \<in> set c. i < length boxes)"
    proof
      assume "c = ?new"
      with ne bound show ?thesis by simp
    next
      assume "c \<in> set clusters"
      with assms(2) show ?thesis by (rule bspec)
    qed
  qed
  from cluster_step_cases [OF assms(1), of iou_thr clusters] show ?thesis
  proof (elim disjE exE conjE)
    assume eq: "cluster_step boxes iou_thr j clusters = clusters @ [[j]]"
    show ?thesis unfolding eq by (rule appended) (use assms(1) in simp_all)
  next
    fix index
    assume "index < length boxes"
      and eq: "cluster_step boxes iou_thr j clusters = clusters @ [[index, j]]"
    then show ?thesis unfolding eq by (intro appended) (use assms(1) in simp_all)
  next
    fix index h
    assume "index < length boxes" "h < length clusters"
      and eq: "cluster_step boxes iou_thr j clusters
                 = clusters[h := list_of_set (clusters ! h @ [index, j])]"
    then show ?thesis unfolding eq by (intro joined)
  qed
qed

lemma cluster_steps_invariant:
  assumes "\<forall>j \<in> set js. j < length boxes"
    and "\<forall>c \<in> set clusters. c \<noteq> [] \<and> (\<forall>i \<in> set c. i < length boxes)"
  shows "\<forall>c \<in> set (fold (cluster_step boxes iou_thr) js clusters).
           c \<noteq> [] \<and> (\<forall>i \<in> set c. i < length boxes)"
  using assms
proof (induction js arbitrary: clusters)
  case Nil
  then show ?case by simp
next
  case (Cons j js)
  from Cons.prems(1) have j: "j < length boxes" by simp
  from Cons.prems(1) have js: "\<forall>j \<in> set js. j < length boxes" by simp
  from Cons.IH [OF js cluster_step_invariant [OF j Cons.prems(2)]]
  show ?case by simp
qed

lemma clusterize_invariant:
  "c \<in> set (clusterize boxes iou_thr) \<Longrightarrow> c \<noteq> [] \<and> (\<forall>i \<in> set c. i < length boxes)"
  using cluster_steps_invariant [of "[0..<length boxes]" boxes "[]" iou_thr]
  by (simp add: clusterize_def)

subsection \<open>Merging a cluster of one label\<close>

lemma merge_labels_uniform:
  assumes "labels \<noteq> []" and "\<forall>l' \<in> set labels. l' = l"
  shows "merge_labels labels confs = Inr l"
proof -
  from assms have "set labels = {l}" by (cases labels) auto
  then have "card (set labels) = 1" by simp
  then have "length (remdups labels) = 1" by (simp only: length_remdups_card_conv)
  moreover from assms have "labels ! 0 = l" by (cases labels) auto
  ultimately show ?thesis by (simp add: merge_labels_def)
qed

lemma envelope_valid:
  assumes "valid_box acc" and "\<forall>b \<in> set bs. valid_box (fbox b)"
  shows "valid_box (fold (\<lambda>b acc. \<lparr>x1 = min (x1 acc) (x1 (fbox b)), y1 = min (y1 acc) (y1 (fbox b)),
                                   x2 = max (x2 acc) (x2 (fbox b)), y2 = max (y2 acc) (y2 (fbox b))\<rparr>)
                      bs acc)"
  using assms
proof (induction bs arbitrary: acc)
  case Nil
  then show ?case by simp
next
  case (Cons b bs)
  from Cons.prems have "valid_box (fbox b)" by simp
  with Cons.prems(1) have "valid_box \<lparr>x1 = min (x1 acc) (x1 (fbox b)), y1 = min (y1 acc) (y1 (fbox b)),
                                   x2 = max (x2 acc) (x2 (fbox b)), y2 = max (y2 acc) (y2 (fbox b))\<rparr>"
    by (simp add: valid_box_def min_def max_def)
  moreover from Cons.prems have "\<forall>b \<in> set bs. valid_box (fbox b)" by simp
  ultimately show ?case using Cons.IH by simp
qed

lemma get_biggest_box_uniform:
  assumes "bs \<noteq> []" and "\<forall>b \<in> set bs. flabel b = l" and "\<forall>b \<in> set bs. valid_box (fbox b)"
  shows "\<exists>r. get_biggest_box bs conf_type = Inr r \<and> flabel r = l \<and> valid_box (fbox r)"
proof -
  from assms(1,2) have ml: "merge_labels (map flabel bs) (map fscore bs) = Inr l"
    by (intro merge_labels_uniform) auto
  from assms(1,3) have "valid_box (fbox (bs ! 0))" by (cases bs) auto
  from envelope_valid [OF this assms(3)] assms(1) ml show ?thesis
    by (simp add: get_biggest_box_def Let_def)
qed

lemma merge_cluster_uniform:
  assumes "c \<noteq> []" and "\<forall>i \<in> set c. i < length boxes"
    and "\<forall>b \<in> set boxes. flabel b = l" and "\<forall>b \<in> set boxes. valid_box (fbox b)"
  shows "\<exists>r. merge_cluster conf_type ''biggest'' weights boxes c = Inr r \<and> flabel r = l
              \<and> valid_box (fbox r)"
proof -
  let ?bs = "map (\<lambda>i. boxes ! i) c"
  from assms(2) have mem: "\<forall>b \<in> set ?bs. b \<in> set boxes" by simp
  from assms(1) have "?bs \<noteq> []" by simp
  moreover from mem assms(3) have "\<forall>b \<in> set ?bs. flabel b = l" by blast
  moreover from mem assms(4) have "\<forall>b \<in> set ?bs. valid_box (fbox b)" by blast
  ultimately obtain r where "get_biggest_box ?bs conf_type = Inr r" "flabel r = l" "valid_box (fbox r)"
    using get_biggest_box_uniform by blast
  then show ?thesis by (simp add: merge_cluster_def)
qed

lemma for_each_all:
  assumes "\<forall>x \<in> set xs. \<exists>y. f x = Inr y \<and> P y"
  shows "\<exists>ys. for_each f xs = Inr ys \<and> (\<forall>y \<in> set ys. P y)"
  using assms
proof (induction xs)
  case Nil
  show ?case by simp
next
  case (Cons x xs)
  from Cons.prems obtain y where y: "f x = Inr y" "P y" by auto
  from Cons.prems have "\<forall>x \<in> set xs. \<exists>y. f x = Inr y \<and> P y" by simp
  from Cons.IH [OF this] obtain ys where "for_each f xs = Inr ys" "\<forall>y \<in> set ys. P y" by blast
  with y show ?case by simp
qed

lemma fuse_bucket_uniform:
  assumes "\<forall>b \<in> set boxes. flabel b = l" and "\<forall>b \<in> set boxes. valid_box (fbox b)"
  shows "\<exists>ms. fuse_bucket conf_type ''biggest'' weights iou_thr boxes = Inr ms
              \<and> (\<forall>m \<in> set ms. flabel m = l \<and> valid_box (fbox m))"
  unfolding fuse_bucket_def
proof (rule for_each_all, rule ballI)
  fix c
  assume "c \<in> set (clusterize boxes iou_thr)"
  then have "c \<noteq> []" and "\<forall>i \<in> set c. i < length boxes"
    by (simp_all add: clusterize_invariant)
  from merge_cluster_uniform [OF this assms]
  show "\<exists>y. merge_cluster conf_type ''biggest'' weights boxes c = Inr y
            \<and> (flabel y = l \<and> valid_box (fbox y))" .
qed

text \<open>
  The call that \<^verbatim>\<open>expand_chart_bboxes\<close> makes: every detection is a model of its own, the
  buckets are per label and the policy is \<^verbatim>\<open>biggest\<close>. It always returns, and it
  returns valid boxes.
\<close>

lemma weighted_boxes_fusion_per_label:
  assumes "length scores = length boxes" and "length labels = length boxes"
    and "\<forall>t < length boxes. length (boxes ! t) = length (scores ! t)
            \<and> length (boxes ! t) = length (labels ! t)"
    and "conf_type \<in> {''avg'', ''max''}"
  shows "\<exists>overall :: fusion_record list.
          weighted_boxes_fusion boxes scores labels iou_thr thr conf_type ''biggest'' False
            = Inr (map fbox overall, map fscore overall, map flabel overall)
          \<and> (\<forall>b \<in> set overall. valid_box (fbox b))"
proof -
  let ?w = "replicate (length boxes) (1::real)"
  from prefilter_boxes_total [OF assms(1-3)] obtain filtered where
    pf: "prefilter_boxes boxes scores labels ?w thr False = Inr filtered" by blast
  have inv: "bucket_invariant False filtered" by (rule prefilter_boxes_invariant [OF pf])
  have "\<exists>merged. for_each (\<lambda>(label, bs). fuse_bucket conf_type ''biggest'' ?w iou_thr bs) filtered
            = Inr merged \<and> (\<forall>ms \<in> set merged. \<forall>m \<in> set ms. valid_box (fbox m))"
  proof (rule for_each_all, rule ballI)
    fix p
    assume p: "p \<in> set filtered"
    obtain k bs where kb: "p = (k, bs)" by (cases p)
    from inv p kb have "\<forall>b \<in> set bs. valid_box (fbox b)" and "\<forall>b \<in> set bs. k = Label (flabel b)"
      by (auto simp: bucket_invariant_def)
    then obtain l where "\<forall>b \<in> set bs. flabel b = l" by (cases bs) auto
    from fuse_bucket_uniform [OF this \<open>\<forall>b \<in> set bs. valid_box (fbox b)\<close>, of conf_type ?w iou_thr] kb
    show "\<exists>y. (case p of (label, bs) \<Rightarrow> fuse_bucket conf_type ''biggest'' ?w iou_thr bs) = Inr y
            \<and> (\<forall>m \<in> set y. valid_box (fbox m))"
      by auto
  qed
  then obtain merged where
    fe: "for_each (\<lambda>(label, bs). fuse_bucket conf_type ''biggest'' ?w iou_thr bs) filtered = Inr merged"
    and v: "\<forall>ms \<in> set merged. \<forall>m \<in> set ms. valid_box (fbox m)" by blast
  show ?thesis
  proof (cases "filtered = []")
    case True
    with pf assms(4) have "weighted_boxes_fusion boxes scores labels iou_thr thr conf_type ''biggest'' False
        = Inr (map fbox [], map fscore [], map flabel [])"
      by (simp add: weighted_boxes_fusion_def)
    then show ?thesis by (intro exI [of _ "[]"]) simp
  next
    case False
    define overall where "overall = sort_by_score_desc (concat merged)"
    from False pf fe assms(4) have "weighted_boxes_fusion boxes scores labels iou_thr thr conf_type ''biggest'' False
        = Inr (map fbox overall, map fscore overall, map flabel overall)"
      by (simp add: weighted_boxes_fusion_def Let_def overall_def)
    moreover from v have "\<forall>b \<in> set overall. valid_box (fbox b)"
      by (auto simp: set_sort_by_score_desc overall_def)
    ultimately show ?thesis by blast
  qed
qed

subsection \<open>Matching charts with titles\<close>

lemma merge_boxes_valid: "valid_box a \<Longrightarrow> valid_box b \<Longrightarrow> valid_box (merge_boxes a b)"
  by (simp add: valid_box_def merge_boxes_def min_def max_def)

lemma clip01_bounds: "0 \<le> clip01 v" "clip01 v \<le> 1"
  by (simp_all add: clip01_def)

lemma expand_box_valid:
  assumes "valid_box b" and "1 \<le> r_x" and "1 \<le> r_y"
  shows "valid_box (expand_box r_x r_y b)"
proof -
  from assms have dw: "0 \<le> (x2 b - x1 b) / 2 * (r_x - 1)" and dh: "0 \<le> (y2 b - y1 b) / 2 * (r_y - 1)"
    by (simp_all add: valid_box_def)
  from assms(1) dw have "clip01 (x1 b - (x2 b - x1 b) / 2 * (r_x - 1)) \<le> x1 b"
    and "x2 b \<le> clip01 (x2 b + (x2 b - x1 b) / 2 * (r_x - 1))"
    by (simp_all add: clip01_def valid_box_def min_def max_def)
  moreover from assms(1) dh have "clip01 (y1 b - (y2 b - y1 b) / 2 * (r_y - 1)) \<le> y1 b"
    and "y2 b \<le> clip01 (y2 b + (y2 b - y1 b) / 2 * (r_y - 1))"
    by (simp_all add: clip01_def valid_box_def min_def max_def)
  ultimately show ?thesis
    using assms(1) by (simp add: valid_box_def expand_box_def Let_def clip01_bounds)
qed

lemma title_matches_bound:
  assumes "title_matches chart_bbox title_bboxes iou_th = Some matches" and "title_bboxes \<noteq> []"
  shows "\<forall>m \<in> set matches. m < length title_bboxes"
proof (cases "iou_th < Max (set (bb_iou_array title_bboxes chart_bbox))")
  case True
  with assms(1) have "matches = [i \<leftarrow> [0..<length (bb_iou_array title_bboxes chart_bbox)].
                                  iou_th < bb_iou_array title_bboxes chart_bbox ! i]"
    by (simp add: title_matches_def Let_def)
  then show ?thesis by (simp add: bb_iou_array_def)
next
  case False
  with assms(1) have "matches = [argmin (title_dists chart_bbox title_bboxes)]"
    by (simp add: title_matches_def Let_def split: if_splits)
  moreover from assms(2) have "argmin (title_dists chart_bbox title_bboxes)
      < length (title_dists chart_bbox title_bboxes)"
    by (intro argmin_less) (simp add: title_dists_def)
  ultimately show ?thesis by (simp add: title_dists_def)
qed

lemma fold_merge_boxes_valid:
  assumes "valid_box acc" and "\<forall>m \<in> set ms. valid_box (ts ! m)"
  shows "valid_box (fold (\<lambda>m new_bbox. merge_boxes new_bbox (ts ! m)) ms acc)"
  using assms by (induction ms arbitrary: acc) (simp_all add: merge_boxes_valid)

lemma match_with_title_valid:
  assumes "match_with_title chart_bbox title_bboxes iou_th = Some (new_bbox, title_bboxes')"
    and "valid_box chart_bbox" and "\<forall>t \<in> set title_bboxes. valid_box t"
  shows "valid_box new_bbox \<and> (\<forall>t \<in> set title_bboxes'. valid_box t)"
proof -
  from assms(1) have ne: "title_bboxes \<noteq> []"
    by (auto simp: match_with_title_def)
  with assms(1) obtain matches where
    tm: "title_matches chart_bbox title_bboxes iou_th = Some matches"
    and nb: "new_bbox = fold (\<lambda>m new_bbox. merge_boxes new_bbox (title_bboxes ! m)) matches chart_bbox"
    and rest: "title_bboxes' = map (\<lambda>i. title_bboxes ! i)
                 [i \<leftarrow> [0..<length title_bboxes]. i \<notin> set matches]"
    by (auto simp: match_with_title_def split: option.splits)
  from title_matches_bound [OF tm ne] assms(3)
  have "\<forall>m \<in> set matches. valid_box (title_bboxes ! m)" by simp
  from fold_merge_boxes_valid [OF assms(2) this] nb have "valid_box new_bbox" by simp
  moreover from rest assms(3) have "\<forall>t \<in> set title_bboxes'. valid_box t" by auto
  ultimately show ?thesis by simp
qed

lemma match_step_valid:
  assumes "match_step i (cb, tb, f, nf) = (cb', tb', f', nf')" and "i < length cb"
    and "\<forall>b \<in> set cb. valid_box b" and "\<forall>t \<in> set tb. valid_box t"
  shows "length cb' = length cb \<and> (\<forall>b \<in> set cb'. valid_box b) \<and> (\<forall>t \<in> set tb'. valid_box t)"
proof (cases "match_with_title (cb ! i) tb 0.01")
  case None
  with assms show ?thesis by (simp add: match_step_def)
next
  case (Some p)
  obtain nb tb2 where p: "p = (nb, tb2)" by (cases p)
  from assms(2,3) have "valid_box (cb ! i)" by simp
  from match_with_title_valid [OF Some [unfolded p] this assms(4)]
  have v: "valid_box nb" "\<forall>t \<in> set tb2. valid_box t" by simp_all
  from assms(1) Some p have eq: "cb' = cb[i := nb]" "tb' = tb2"
    by (simp_all add: match_step_def)
  have "\<forall>b \<in> set (cb[i := nb]). valid_box b"
    using set_update_subset_insert [of cb i nb] v(1) assms(3) by blast
  with eq v(2) show ?thesis by simp
qed

lemma match_loop_valid:
  assumes "fold match_step is st = st'"
    and "\<forall>i \<in> set is. i < length (fst st)"
    and "\<forall>b \<in> set (fst st). valid_box b" and "\<forall>t \<in> set (fst (snd st)). valid_box t"
  shows "length (fst st') = length (fst st) \<and> (\<forall>b \<in> set (fst st'). valid_box b)
           \<and> (\<forall>t \<in> set (fst (snd st')). valid_box t)"
  using assms
proof (induction "is" arbitrary: st)
  case Nil
  then show ?case by simp
next
  case (Cons i "is")
  obtain cb tb f nf where st: "st = (cb, tb, f, nf)" by (cases st) auto
  obtain cb2 tb2 f2 nf2 where step: "match_step i (cb, tb, f, nf) = (cb2, tb2, f2, nf2)"
    by (cases "match_step i (cb, tb, f, nf)") auto
  from Cons.prems st have i: "i < length cb" and vb: "\<forall>b \<in> set cb. valid_box b"
    and vt: "\<forall>t \<in> set tb. valid_box t"
    by simp_all
  from match_step_valid [OF step i vb vt]
  have s2: "length cb2 = length cb" "\<forall>b \<in> set cb2. valid_box b" "\<forall>t \<in> set tb2. valid_box t"
    by simp_all
  from Cons.prems(1) st step have "fold match_step is (cb2, tb2, f2, nf2) = st'" by simp
  moreover from Cons.prems(2) st s2(1) have "\<forall>i \<in> set is. i < length (fst (cb2, tb2, f2, nf2))"
    by simp
  ultimately have "length (fst st') = length (fst (cb2, tb2, f2, nf2))
      \<and> (\<forall>b \<in> set (fst st'). valid_box b) \<and> (\<forall>t \<in> set (fst (snd st')). valid_box t)"
    using s2 by (intro Cons.IH) simp_all
  with s2(1) st show ?case by simp
qed

lemma set_assign_rows: "set (assign_rows xs idxs vals) \<subseteq> set xs \<union> set vals"
proof -
  have "set (fold (\<lambda>(i, v) ys. ys[i := v]) ps xs) \<subseteq> set xs \<union> snd ` set ps" for ps :: "(nat \<times> 'a) list"
  proof (induction ps arbitrary: xs)
    case Nil
    show ?case by simp
  next
    case (Cons p ps)
    obtain i v where p: "p = (i, v)" by (cases p)
    have "set (fold (\<lambda>(i, v) ys. ys[i := v]) ps (xs[i := v])) \<subseteq> set (xs[i := v]) \<union> snd ` set ps"
      by (rule Cons.IH)
    also have "\<dots> \<subseteq> insert v (set xs) \<union> snd ` set ps"
      using set_update_subset_insert [of xs i v] by blast
    finally show ?case using p by auto
  qed
  from this [of "zip idxs vals"] have "set (assign_rows xs idxs vals) \<subseteq> set xs \<union> snd ` set (zip idxs vals)"
    by (simp add: assign_rows_def)
  moreover have "snd ` set (zip idxs vals) \<subseteq> set vals"
    by (auto dest: set_zip_rightD)
  ultimately show ?thesis by blast
qed

lemma length_assign_rows: "length (assign_rows xs idxs vals) = length xs"
proof -
  have "length (fold (\<lambda>(i, v) ys. ys[i := v]) ps xs) = length xs" for ps :: "(nat \<times> 'a) list"
    by (induction ps arbitrary: xs) (simp_all add: case_prod_beta)
  then show ?thesis by (simp add: assign_rows_def)
qed

lemma select_label_subset: "set (select_label l labels xs) \<subseteq> set xs"
  by (auto simp: select_label_def dest: set_zip_leftD)

subsection \<open>Chart expansion always returns\<close>

lemma expand_chart_bboxes_unfold:
  assumes "chart a \<noteq> []"
    and "weighted_boxes_fusion (fusion_boxes a) (fusion_scores a) (fusion_labels a)
           0.01 0.0 ''max'' ''biggest'' False = Inr (pred_wbf, confidences_wbf, labels_wbf)"
    and "fold match_step [0..<length (select_label 1 labels_wbf pred_wbf)]
           (select_label 1 labels_wbf pred_wbf, select_label 2 labels_wbf pred_wbf, [], [])
         = (cb, tb, found, no_found)"
  shows "expand_chart_bboxes a =
           Inr \<lparr>table = table a,
                chart = map (\<lambda>(b, c). \<lparr>dbox = b, conf = c\<rparr>)
                          (zip (expanded_charts cb found no_found)
                               (select_label 1 labels_wbf confidences_wbf)),
                title = title a\<rparr>"
  using assms
  by (simp add: expand_chart_bboxes_def fusion_boxes_def fusion_scores_def fusion_labels_def
      expanded_charts_def Let_def)

lemma expanded_charts_valid:
  assumes "\<forall>b \<in> set cb. valid_box b" and "\<forall>i \<in> set found. i < length cb"
    and "\<forall>i \<in> set no_found. i < length cb"
  shows "\<forall>b \<in> set (expanded_charts cb found no_found). valid_box b"
proof -
  let ?cb1 = "assign_rows cb found (expand_boxes (map (\<lambda>i. cb ! i) found) 1.05 1.1)"
  have e1: "\<forall>b \<in> set (expand_boxes (map (\<lambda>i. cb ! i) found) 1.05 1.1). valid_box b"
    using assms(1,2) by (auto simp: expand_boxes_def intro!: expand_box_valid)
  have v1: "\<forall>b \<in> set ?cb1. valid_box b"
    using set_assign_rows [of cb found "expand_boxes (map (\<lambda>i. cb ! i) found) 1.05 1.1"] e1 assms(1)
    by blast
  have "\<forall>i \<in> set no_found. ?cb1 ! i \<in> set ?cb1"
    using assms(3) by (simp add: length_assign_rows)
  with v1 have e2: "\<forall>b \<in> set (expand_boxes (map (\<lambda>i. ?cb1 ! i) no_found) 1.1 1.25). valid_box b"
    by (auto simp: expand_boxes_def intro!: expand_box_valid)
  have "\<forall>b \<in> set (assign_rows ?cb1 no_found (expand_boxes (map (\<lambda>i. ?cb1 ! i) no_found) 1.1 1.25)).
          valid_box b"
    using set_assign_rows [of ?cb1 no_found "expand_boxes (map (\<lambda>i. ?cb1 ! i) no_found) 1.1 1.25"] e2 v1
    by blast
  then show ?thesis by (simp add: expanded_charts_def Let_def)
qed

lemma match_step_indices:
  assumes "match_step i (cb, tb, f, nf) = (cb', tb', f', nf')"
  shows "set f' \<union> set nf' = insert i (set f \<union> set nf)"
  using assms by (auto simp: match_step_def split: option.splits)

lemma match_loop_indices:
  assumes "fold match_step is st = st'"
  shows "set (fst (snd (snd st'))) \<union> set (snd (snd (snd st')))
           = set is \<union> set (fst (snd (snd st))) \<union> set (snd (snd (snd st)))"
  using assms
proof (induction "is" arbitrary: st)
  case Nil
  then show ?case by auto
next
  case (Cons i "is")
  obtain cb tb f nf where st: "st = (cb, tb, f, nf)" by (cases st) auto
  obtain cb2 tb2 f2 nf2 where step: "match_step i (cb, tb, f, nf) = (cb2, tb2, f2, nf2)"
    by (cases "match_step i (cb, tb, f, nf)") auto
  from Cons.prems st step have "fold match_step is (cb2, tb2, f2, nf2) = st'" by simp
  from Cons.IH [OF this] match_step_indices [OF step] st show ?case by auto
qed

lemma nth_singletons: "t < length xs \<Longrightarrow> length (map (\<lambda>x. [x]) xs ! t) = 1"
  by simp

lemma fusion_lengths:
  "length (fusion_scores a) = length (fusion_boxes a)"
  "length (fusion_labels a) = length (fusion_boxes a)"
  "\<forall>t < length (fusion_boxes a). length (fusion_boxes a ! t) = length (fusion_scores a ! t)
      \<and> length (fusion_boxes a ! t) = length (fusion_labels a ! t)"
proof -
  show "length (fusion_scores a) = length (fusion_boxes a)"
    and l: "length (fusion_labels a) = length (fusion_boxes a)"
    by (simp_all add: fusion_boxes_def fusion_scores_def fusion_labels_def)
  show "\<forall>t < length (fusion_boxes a). length (fusion_boxes a ! t) = length (fusion_scores a ! t)
      \<and> length (fusion_boxes a ! t) = length (fusion_labels a ! t)"
  proof (intro allI impI)
    fix t
    assume t: "t < length (fusion_boxes a)"
    have "length (fusion_boxes a ! t) = 1"
      unfolding fusion_boxes_def by (rule nth_singletons) (use t in \<open>simp add: fusion_boxes_def\<close>)
    moreover have "length (fusion_scores a ! t) = 1"
      unfolding fusion_scores_def by (rule nth_singletons) (use t in \<open>simp add: fusion_boxes_def\<close>)
    moreover have "length (fusion_labels a ! t) = 1"
      unfolding fusion_labels_def by (rule nth_singletons) (use t in \<open>simp add: fusion_boxes_def\<close>)
    ultimately show "length (fusion_boxes a ! t) = length (fusion_scores a ! t)
      \<and> length (fusion_boxes a ! t) = length (fusion_labels a ! t)"
      by simp
  qed
qed

text \<open>
  With at least one chart, \<^verbatim>\<open>expand_chart_bboxes\<close> returns the tables and the titles it
  was given, and charts whose boxes are valid.
\<close>

lemma expand_chart_bboxes_result:
  assumes "chart a \<noteq> []"
  shows "\<exists>cbs confs. expand_chart_bboxes a =
           Inr \<lparr>table = table a,
                chart = map (\<lambda>(b, c). \<lparr>dbox = b, conf = c\<rparr>) (zip cbs confs),
                title = title a\<rparr>
         \<and> (\<forall>b \<in> set cbs. valid_box b)"
proof -
  have "''max'' \<in> {''avg'', ''max''}" by simp
  from weighted_boxes_fusion_per_label [OF fusion_lengths this, of a "0.01" "0.0"]
  obtain overall :: "fusion_record list" where
    wbf: "weighted_boxes_fusion (fusion_boxes a) (fusion_scores a) (fusion_labels a)
           0.01 0.0 ''max'' ''biggest'' False
          = Inr (map fbox overall, map fscore overall, map flabel overall)"
    and valid: "\<forall>b \<in> set overall. valid_box (fbox b)"
    by blast
  define charts where "charts = select_label 1 (map flabel overall) (map fbox overall)"
  define titles where "titles = select_label 2 (map flabel overall) (map fbox overall)"
  obtain cb tb found no_found where
    loop: "fold match_step [0..<length charts] (charts, titles, [], []) = (cb, tb, found, no_found)"
    by (cases "fold match_step [0..<length charts] (charts, titles, [], [])") auto
  have vc: "\<forall>b \<in> set charts. valid_box b"
    using select_label_subset [of 1 "map flabel overall" "map fbox overall"] valid
    unfolding charts_def by auto
  have vt: "\<forall>b \<in> set titles. valid_box b"
    using select_label_subset [of 2 "map flabel overall" "map fbox overall"] valid
    unfolding titles_def by auto
  from match_loop_valid [OF loop] vc vt
  have len: "length cb = length charts" and vcb: "\<forall>b \<in> set cb. valid_box b" by simp_all
  from match_loop_indices [OF loop] have "set found \<union> set no_found = {0..<length charts}"
    by simp
  with len have bounds: "\<forall>i \<in> set found. i < length cb" "\<forall>i \<in> set no_found. i < length cb"
    by auto
  have res: "expand_chart_bboxes a =
           Inr \<lparr>table = table a,
                chart = map (\<lambda>(b, c). \<lparr>dbox = b, conf = c\<rparr>)
                          (zip (expanded_charts cb found no_found)
                               (select_label 1 (map flabel overall) (map fscore overall))),
                title = title a\<rparr>"
    by (rule expand_chart_bboxes_unfold [OF assms wbf]) (use loop in \<open>simp add: charts_def titles_def\<close>)
  from expanded_charts_valid [OF vcb bounds]
  have "\<forall>b \<in> set (expanded_charts cb found no_found). valid_box b" .
  with res show ?thesis by blast
qed

subsection \<open>Titles after chart fusion\<close>

lemma expand_chart_bboxes_total:
  "\<exists>r. expand_chart_bboxes a = Inr r \<and> table r = table a \<and> title r = title a
        \<and> (\<forall>d \<in> set (chart r). valid_box (dbox d))"
proof (cases "chart a = []")
  case True
  then show ?thesis by (simp add: expand_chart_bboxes_def)
next
  case False
  from expand_chart_bboxes_result [OF False] obtain cbs confs where
    res: "expand_chart_bboxes a =
           Inr \<lparr>table = table a,
                chart = map (\<lambda>(b, c). \<lparr>dbox = b, conf = c\<rparr>) (zip cbs confs),
                title = title a\<rparr>"
    and valid: "\<forall>b \<in> set cbs. valid_box b"
    by blast
  have "\<forall>d \<in> set (map (\<lambda>(b, c). \<lparr>dbox = b, conf = c\<rparr>) (zip cbs confs)). valid_box (dbox d)"
    using valid by (auto dest: set_zip_leftD)
  with res show ?thesis by simp
qed

text \<open>
  C1. Chart and title fusion returns (it never raises), and the title list it returns is
  the title list it was given, whether or not titles were merged into charts; the final
  threshold filter copies that list. This holds for every annotation set, so in particular
  for those with at least one chart.
\<close>

theorem chart_fusion_keeps_titles:
  "\<exists>r. expand_chart_bboxes a = Inr r \<and> title r = title a \<and> length (title r) = length (title a)
        \<and> title (final_threshold_filter final_thresh r) = title a"
proof -
  from expand_chart_bboxes_total [of a] obtain r where
    "expand_chart_bboxes a = Inr r" and "title r = title a" by blast
  then show ?thesis by (simp add: final_threshold_filter_def)
qed

theorem chart_fusion_keeps_titles_witness:
  "expand_chart_bboxes chart_title_example =
     Inr \<lparr>table = [], chart = [mk_det 0.19 0.0325 0.61 0.4175 0.9],
          title = [mk_det 0.2 0.05 0.6 0.18 0.8]\<rparr> \<and>
   (\<exists>r. expand_chart_bboxes chart_title_example = Inr r \<and> title r = title chart_title_example
        \<and> length (title r) = length (title chart_title_example)
        \<and> title (final_threshold_filter 0.48 r) = title chart_title_example)"
proof -
  have "expand_chart_bboxes chart_title_example =
     Inr \<lparr>table = [], chart = [mk_det 0.19 0.0325 0.61 0.4175 0.9],
          title = [mk_det 0.2 0.05 0.6 0.18 0.8]\<rparr>"
    by code_simp
  then show ?thesis
    using chart_fusion_keeps_titles [of chart_title_example "0.48"] by (rule conjI)
qed

subsection \<open>Validity of the output boxes\<close>







subsection \<open>Charts without titles\<close>








subsection \<open>The title match of one chart\<close>












end
